theory Spec2Isabelle
  imports Main "HOL-Library.Finite_Map"
begin

section \<open>The Stage controller of src/Stage.tsx\<close>

text \<open>
  The class \<open>Stage\<close> keeps one field, \<open>myInternalState\<close>, a reference to an object
  of string keys and arbitrary values. Its methods assign properties of objects that the
  host also holds, and build new objects with the spread operator, so objects live in an
  explicit store and values that are objects are references into it.

  An object is represented by its own enumerable string-keyed data properties, by whether
  it is extensible, and by the keys whose property cannot be written. That is what
  \<open>Object.keys\<close>, the spread operator and the property reads and writes of this class
  look at on an object whose prototype is \<open>Object.prototype\<close>: a frozen object is not
  extensible and has every key read-only, a sealed one is not extensible, an accessor
  without a setter is a read-only key. Setters that run code and proxies are not
  represented. A number is represented by an integer: the only numbers the class computes
  are key counts, every other value is carried unchanged.
\<close>

subsection \<open>Values, objects and the store\<close>

type_synonym addr = nat

datatype jsval =
    JUndefined
  | JNull
  | JBool bool
  | JNum int
  | JStr string
  | JRef addr

type_synonym props = "(string, jsval) fmap"

record js_object =
  obj_props :: props
  obj_extensible :: bool
  obj_readonly :: "string fset"

type_synonym heap = "js_object list"

text \<open>
  \<open>TypeError\<close> is the exception of the language. \<open>NoSuchObject\<close> is not: it marks a
  reference to an address the store does not hold, which no program can make.
\<close>

datatype error = TypeError | NoSuchObject

text \<open>The properties of the object at an address.\<close>

definition lookup_obj :: "heap \<Rightarrow> addr \<Rightarrow> props option" where
  "lookup_obj h a = (if a < length h then Some (obj_props (h ! a)) else None)"

text \<open>
  An object literal allocates a new object, at an address not in use; the object is
  extensible and all its properties can be written.
\<close>

definition plain :: "props \<Rightarrow> js_object" where
  "plain p = \<lparr>obj_props = p, obj_extensible = True, obj_readonly = {||}\<rparr>"

definition alloc :: "heap \<Rightarrow> props \<Rightarrow> addr \<times> heap" where
  "alloc h p = (length h, h @ [plain p])"

text \<open>\<open>v != null\<close> is false for \<open>null\<close> and for \<open>undefined\<close>, true for every other value.\<close>

fun nullish :: "jsval \<Rightarrow> bool" where
  "nullish JUndefined = True"
| "nullish JNull = True"
| "nullish (JBool b) = False"
| "nullish (JNum n) = False"
| "nullish (JStr s) = False"
| "nullish (JRef a) = False"

text \<open>The decimal numeral of an index, as a property key.\<close>

fun dec_string :: "nat \<Rightarrow> string" where
  "dec_string n =
     (if n < 10 then [''0123456789'' ! n]
      else dec_string (n div 10) @ [''0123456789'' ! (n mod 10)])"

declare dec_string.simps [simp del]

text \<open>
  The own enumerable properties of a string are its characters, each under its index
  (\<open>length\<close> is not enumerable).
\<close>

definition index_props :: "string \<Rightarrow> props" where
  "index_props s =
     fmap_of_list (zip (map dec_string [0 ..< length s]) (map (\<lambda>c. JStr [c]) s))"

text \<open>
  The own enumerable properties of a value converted to an object: those of the object
  a reference points to, the indexed characters of a string, none for a number or a
  boolean. The conversion throws on \<open>null\<close> and \<open>undefined\<close>.
\<close>

fun own_props :: "heap \<Rightarrow> jsval \<Rightarrow> error + props" where
  "own_props h JUndefined = Inl TypeError"
| "own_props h JNull = Inl TypeError"
| "own_props h (JBool b) = Inr fmempty"
| "own_props h (JNum n) = Inr fmempty"
| "own_props h (JStr s) = Inr (index_props s)"
| "own_props h (JRef a) =
     (case lookup_obj h a of None \<Rightarrow> Inl NoSuchObject | Some p \<Rightarrow> Inr p)"

text \<open>\<open>Object.keys(v).length\<close>: the number of own enumerable keys.\<close>

definition key_count :: "props \<Rightarrow> jsval" where
  "key_count p = JNum (int (fcard (fmdom p)))"

definition keys_length :: "heap \<Rightarrow> jsval \<Rightarrow> error + jsval" where
  "keys_length h v =
     (case own_props h v of Inl e \<Rightarrow> Inl e | Inr p \<Rightarrow> Inr (key_count p))"

text \<open>
  \<open>...v\<close> inside an object literal copies the own enumerable properties of \<open>v\<close>, and
  nothing when \<open>v\<close> is \<open>null\<close> or \<open>undefined\<close>.
\<close>

definition spread :: "heap \<Rightarrow> jsval \<Rightarrow> error + props" where
  "spread h v = (if nullish v then Inr fmempty else own_props h v)"

text \<open>
  Whether \<open>o[k] = x\<close> can write: a key the object holds must not be read-only, a key it
  does not hold can be added only to an extensible object.
\<close>

definition writable :: "js_object \<Rightarrow> string \<Rightarrow> bool" where
  "writable ob k =
     (if k |\<in>| fmdom (obj_props ob) then \<not> (k |\<in>| obj_readonly ob)
      else obj_extensible ob)"

definition put :: "js_object \<Rightarrow> string \<Rightarrow> jsval \<Rightarrow> js_object" where
  "put ob k x = ob\<lparr>obj_props := fmupd k x (obj_props ob)\<rparr>"

text \<open>
  \<open>v[k] = x\<close> in strict code (a class body is strict): on an object it defines or
  overwrites the property in place when that can be written, and throws when it cannot
  (a frozen, sealed or non-extensible object, a read-only property); on any other value
  it throws.
\<close>

fun set_prop :: "heap \<Rightarrow> jsval \<Rightarrow> string \<Rightarrow> jsval \<Rightarrow> error + heap" where
  "set_prop h (JRef a) k x =
     (if a < length h then
        (if writable (h ! a) k then Inr (h[a := put (h ! a) k x]) else Inl TypeError)
      else Inl NoSuchObject)"
| "set_prop h JUndefined k x = Inl TypeError"
| "set_prop h JNull k x = Inl TypeError"
| "set_prop h (JBool b) k x = Inl TypeError"
| "set_prop h (JNum n) k x = Inl TypeError"
| "set_prop h (JStr s) k x = Inl TypeError"

text \<open>
  \<open>o[k]\<close> on an object: the value of the property, \<open>undefined\<close> when the object has
  none (for a key that \<open>Object.prototype\<close> does not define, as \<open>someKey\<close>).
\<close>

definition get_prop :: "heap \<Rightarrow> addr \<Rightarrow> string \<Rightarrow> error + jsval" where
  "get_prop h a k =
     (case lookup_obj h a of
        None \<Rightarrow> Inl NoSuchObject
      | Some p \<Rightarrow> Inr (case fmlookup p k of None \<Rightarrow> JUndefined | Some x \<Rightarrow> x))"

subsection \<open>The data of the host\<close>

text \<open>
  \<open>InitialData\<close>: the bundle the constructor destructures. A field the host left out
  reads as \<open>JUndefined\<close>.
\<close>

record initial_data =
  characters :: jsval
  users :: jsval
  config :: jsval
  messageState :: jsval
  environment :: jsval
  initState :: jsval
  chatState :: jsval

text \<open>
  \<open>Message\<close>: the three fields the hooks destructure, each of which may be absent.
  The parameter has an object type, and destructuring an object does not throw, whatever
  fields it has.
\<close>

record message =
  content :: "string option"
  anonymizedId :: "string option"
  isBot :: "bool option"

text \<open>
  The object \<open>load\<close> returns, and the object the two hooks return; the fields carry the
  prefix of their record since the names \<open>error\<close>, \<open>messageState\<close>, \<open>initState\<close>
  and \<open>chatState\<close> occur in several of them.
\<close>

record load_response =
  lr_success :: jsval
  lr_error :: jsval
  lr_initState :: jsval
  lr_chatState :: jsval

record stage_response =
  sr_stageDirections :: jsval
  sr_messageState :: jsval
  sr_modifiedMessage :: jsval
  sr_systemMessage :: jsval
  sr_error :: jsval
  sr_chatState :: jsval

subsection \<open>The class\<close>

text \<open>
  The field \<open>myInternalState\<close> has an object type, so an instance holds the address
  of an object.
\<close>

record stage =
  myInternalState :: addr

text \<open>The default seed \<open>{'someKey': 'someValue'}\<close>.\<close>

definition seed :: props where
  "seed = fmupd ''someKey'' (JStr ''someValue'') fmempty"

text \<open>
  \<open>messageState != null ? messageState : {'someKey': 'someValue'}\<close>: the value of the
  host as it is, or a newly allocated seed object.
\<close>

definition initial_working :: "jsval \<Rightarrow> heap \<Rightarrow> jsval \<times> heap" where
  "initial_working ms h =
     (if \<not> nullish ms then (ms, h)
      else (case alloc h seed of (a, h') \<Rightarrow> (JRef a, h')))"

text \<open>
  The statements of the constructor. They follow \<open>super(data)\<close>, the constructor of
  the library's base class \<open>StageBase\<close>, which is not part of this repository: \<open>h\<close>
  is the store as that call leaves it, the store of the host when it does nothing; the
  whole of \<open>new Stage(data)\<close> is \<open>new_Stage\<close> below. The two assignments evaluate
  their right-hand side and then write the property, in this order, each on the store
  the previous statement left. An exception leaves no instance. Once both writes have
  succeeded the working state is a reference, so the last case distinction only reads
  its address.
\<close>

definition constructor :: "initial_data \<Rightarrow> heap \<Rightarrow> error + (stage \<times> heap)" where
  "constructor data h =
     (case initial_working (messageState data) h of (w, h1) \<Rightarrow>
      (case keys_length h1 (users data) of Inl e \<Rightarrow> Inl e | Inr nu \<Rightarrow>
      (case set_prop h1 w ''numUsers'' nu of Inl e \<Rightarrow> Inl e | Inr h2 \<Rightarrow>
      (case keys_length h2 (characters data) of Inl e \<Rightarrow> Inl e | Inr nc \<Rightarrow>
      (case set_prop h2 w ''numChars'' nc of Inl e \<Rightarrow> Inl e | Inr h3 \<Rightarrow>
      (case w of
         JRef a \<Rightarrow> Inr (\<lparr>myInternalState = a\<rparr>, h3)
       | _ \<Rightarrow> Inl TypeError))))))"


text \<open>
  The methods are \<open>async\<close>: a result \<open>Inr\<close> is a promise that resolves, \<open>Inl\<close> one
  that rejects. Each returns the instance and the store as it leaves them.
\<close>

definition load :: "stage \<Rightarrow> heap \<Rightarrow> error + (load_response \<times> stage \<times> heap)" where
  "load st h =
     Inr (\<lparr>lr_success = JBool True, lr_error = JNull,
           lr_initState = JNull, lr_chatState = JNull\<rparr>, st, h)"

definition setState :: "stage \<Rightarrow> heap \<Rightarrow> jsval \<Rightarrow> error + (stage \<times> heap)" where
  "setState st h state =
     (if \<not> nullish state then
        (case spread h (JRef (myInternalState st)) of Inl e \<Rightarrow> Inl e | Inr p1 \<Rightarrow>
        (case spread h state of Inl e \<Rightarrow> Inl e | Inr p2 \<Rightarrow>
        (case alloc h (p1 ++\<^sub>f p2) of (a, h') \<Rightarrow>
           Inr (st\<lparr>myInternalState := a\<rparr>, h'))))
      else Inr (st, h))"

definition beforePrompt ::
  "stage \<Rightarrow> heap \<Rightarrow> message \<Rightarrow> error + (stage_response \<times> stage \<times> heap)" where
  "beforePrompt st h userMessage =
     (case get_prop h (myInternalState st) ''someKey'' of Inl e \<Rightarrow> Inl e | Inr v \<Rightarrow>
      (case alloc h (fmupd ''someKey'' v fmempty) of (a, h') \<Rightarrow>
         Inr (\<lparr>sr_stageDirections = JNull, sr_messageState = JRef a,
               sr_modifiedMessage = JNull, sr_systemMessage = JNull,
               sr_error = JNull, sr_chatState = JNull\<rparr>, st, h')))"

definition afterResponse ::
  "stage \<Rightarrow> heap \<Rightarrow> message \<Rightarrow> error + (stage_response \<times> stage \<times> heap)" where
  "afterResponse st h botMessage =
     (case get_prop h (myInternalState st) ''someKey'' of Inl e \<Rightarrow> Inl e | Inr v \<Rightarrow>
      (case alloc h (fmupd ''someKey'' v fmempty) of (a, h') \<Rightarrow>
         Inr (\<lparr>sr_stageDirections = JNull, sr_messageState = JRef a,
               sr_modifiedMessage = JNull, sr_systemMessage = JNull,
               sr_error = JNull, sr_chatState = JNull\<rparr>, st, h')))"

subsection \<open>The lifetime of an instance\<close>

text \<open>
  After construction the host calls the methods one at a time, in the order it chooses.
\<close>

datatype call =
    Load
  | SetState jsval
  | BeforePrompt message
  | AfterResponse message

fun step :: "call \<Rightarrow> stage \<times> heap \<Rightarrow> error + (stage \<times> heap)" where
  "step Load (st, h) =
     (case load st h of Inl e \<Rightarrow> Inl e | Inr (r, st', h') \<Rightarrow> Inr (st', h'))"
| "step (SetState s) (st, h) = setState st h s"
| "step (BeforePrompt m) (st, h) =
     (case beforePrompt st h m of Inl e \<Rightarrow> Inl e | Inr (r, st', h') \<Rightarrow> Inr (st', h'))"
| "step (AfterResponse m) (st, h) =
     (case afterResponse st h m of Inl e \<Rightarrow> Inl e | Inr (r, st', h') \<Rightarrow> Inr (st', h'))"

fun run :: "call list \<Rightarrow> stage \<times> heap \<Rightarrow> error + (stage \<times> heap)" where
  "run [] s = Inr s"
| "run (c # cs) s = (case step c s of Inl e \<Rightarrow> Inl e | Inr s' \<Rightarrow> run cs s')"

text \<open>What a call merges into the working state: the properties \<open>setState\<close> spreads.\<close>

fun merged :: "call \<Rightarrow> heap \<Rightarrow> props" where
  "merged (SetState s) h = (case spread h s of Inl e \<Rightarrow> fmempty | Inr p \<Rightarrow> p)"
| "merged Load h = fmempty"
| "merged (BeforePrompt m) h = fmempty"
| "merged (AfterResponse m) h = fmempty"

text \<open>The properties merged by a sequence of calls, each read when its call is made.\<close>

fun merges :: "call list \<Rightarrow> stage \<times> heap \<Rightarrow> props list" where
  "merges [] s = []"
| "merges (c # cs) s =
     merged c (snd s) #
       (case step c s of Inl e \<Rightarrow> [] | Inr s' \<Rightarrow> merges cs s')"

text \<open>The object the working state starts from: the host's, or the seed.\<close>

definition start_props :: "initial_data \<Rightarrow> heap \<Rightarrow> props" where
  "start_props data h =
     (if nullish (messageState data) then seed
      else (case own_props h (messageState data) of Inl e \<Rightarrow> fmempty | Inr p \<Rightarrow> p))"

subsection \<open>A small host\<close>

text \<open>
  Two users, one character and a persisted message state \<open>{someKey: 'x', extra: 5}\<close>,
  at the addresses 0, 1 and 2, as in the scenarios of the specification.
\<close>

definition demo_users :: props where
  "demo_users = fmupd ''u1'' (JStr ''Ann'') (fmupd ''u2'' (JStr ''Bob'') fmempty)"

definition demo_characters :: props where
  "demo_characters = fmupd ''c1'' (JStr ''Eve'') fmempty"

definition demo_state :: props where
  "demo_state = fmupd ''someKey'' (JStr ''x'') (fmupd ''extra'' (JNum 5) fmempty)"

definition demo_heap :: heap where
  "demo_heap = [plain demo_users, plain demo_characters, plain demo_state]"



definition demo_data :: "jsval \<Rightarrow> initial_data" where
  "demo_data ms =
     \<lparr>characters = JRef 1, users = JRef 0, config = JUndefined, messageState = ms,
      environment = JStr ''production'', initState = JNull, chatState = JNull\<rparr>"

text \<open>The working state the constructor builds from the seed for this host.\<close>

definition demo_working :: props where
  "demo_working =
     fmupd ''numChars'' (JNum 1) (fmupd ''numUsers'' (JNum 2)
       (fmupd ''someKey'' (JStr ''someValue'') fmempty))"

definition demo_message :: message where
  "demo_message = \<lparr>content = Some ''hello'', anonymizedId = None, isBot = None\<rparr>"

section \<open>The store\<close>

lemma lookup_obj_append:
  "lookup_obj (h @ [plain p]) b =
     (if b < length h then lookup_obj h b else if b = length h then Some p else None)"
  by (simp add: lookup_obj_def plain_def nth_append)

lemma lookup_obj_Some_live: "lookup_obj h a = Some p \<Longrightarrow> a < length h"
  by (simp add: lookup_obj_def split: if_splits)

lemma lookup_obj_append_live:
  "lookup_obj h a = Some w \<Longrightarrow> lookup_obj (h @ [ob]) a = Some w"
  by (simp add: lookup_obj_def nth_append split: if_splits)

lemma lookup_obj_put:
  "lookup_obj (h[a := put (h ! a) k x]) b =
     (if b = a \<and> a < length h then Some (fmupd k x (obj_props (h ! a))) else lookup_obj h b)"
  by (simp add: lookup_obj_def put_def)

text \<open>Allocation leaves the properties of every value that had some as they were.\<close>

lemma own_props_append:
  "own_props h v = Inr p \<Longrightarrow> own_props (h @ [ob]) v = Inr p"
  by (cases v) (auto simp: lookup_obj_append_live split: option.splits)


lemma writable_plain: "writable (plain p) k"
  by (simp add: writable_def plain_def)

lemma put_plain: "put (plain p) k x = plain (fmupd k x p)"
  by (simp add: put_def plain_def)

lemma obj_props_plain: "obj_props (plain p) = p"
  by (simp add: plain_def)

text \<open>Counting the keys of an object that is written out.\<close>

lemma fcard_written_out:
  "fcard {||} = 0"
  "fcard (finsert x A) = (if x |\<in>| A then fcard A else Suc (fcard A))"
  by (simp_all add: fcard_finsert_if)

section \<open>What each method returns\<close>

lemma setState_live:
  assumes "\<not> nullish s" and "lookup_obj h (myInternalState st) = Some w"
    and "own_props h s = Inr p"
  shows "setState st h s =
           Inr (st\<lparr>myInternalState := length h\<rparr>, h @ [plain (w ++\<^sub>f p)])"
  using assms by (simp add: setState_def spread_def alloc_def)

lemma hook_live:
  assumes "lookup_obj h (myInternalState st) = Some w"
  shows "get_prop h (myInternalState st) k =
           Inr (case fmlookup w k of None \<Rightarrow> JUndefined | Some x \<Rightarrow> x)"
  using assms by (simp add: get_prop_def)

lemma constructor_seed:
  assumes "nullish (messageState data)"
    and "own_props (h @ [plain seed]) (users data) = Inr pu"
    and "own_props (h @ [plain (fmupd ''numUsers'' (key_count pu) seed)]) (characters data) =
           Inr pc"
  shows "constructor data h =
           Inr (\<lparr>myInternalState = length h\<rparr>,
                h @ [plain (fmupd ''numChars'' (key_count pc)
                              (fmupd ''numUsers'' (key_count pu) seed))])"
  using assms
  by (simp add: constructor_def initial_working_def alloc_def keys_length_def writable_plain
        put_plain)


text \<open>
  A \<open>messageState\<close> that is neither \<open>null\<close> nor an object makes the first property
  write throw.
\<close>

lemma constructor_primitive_messageState:
  "constructor (demo_data (JNum 5)) demo_heap = Inl TypeError"
  by (simp add: constructor_def initial_working_def keys_length_def demo_data_def
        demo_heap_def obj_props_plain lookup_obj_def)

text \<open>Conversely, a constructor that returned took one of these two paths.\<close>

lemma constructor_Inr_seed:
  assumes "nullish (messageState data)" and "constructor data h = Inr (st, h1)"
  shows "\<exists>pu pc. st = \<lparr>myInternalState = length h\<rparr> \<and>
           lookup_obj h1 (length h) =
             Some (fmupd ''numChars'' (key_count pc) (fmupd ''numUsers'' (key_count pu) seed))"
  using assms
  by (auto simp: constructor_def initial_working_def alloc_def keys_length_def
                 lookup_obj_append put_plain
           split: sum.splits if_splits; blast)

lemma constructor_Inr_ref:
  assumes "\<not> nullish (messageState data)" and "constructor data h = Inr (st, h1)"
  shows "\<exists>a p0 pu pc. messageState data = JRef a \<and> lookup_obj h a = Some p0 \<and>
           st = \<lparr>myInternalState = a\<rparr> \<and>
           lookup_obj h1 a =
             Some (fmupd ''numChars'' (key_count pc) (fmupd ''numUsers'' (key_count pu) p0))"
proof (cases "messageState data")
  case (JRef a)
  with assms(2) show ?thesis
    by (auto simp: constructor_def initial_working_def keys_length_def lookup_obj_put
                   lookup_obj_def put_def
             split: sum.splits if_splits; blast)
qed (use assms in \<open>auto simp: constructor_def initial_working_def keys_length_def
                          split: sum.splits\<close>)

lemma constructor_base:
  assumes "constructor data h0 = Inr (st0, h1)"
  shows "\<exists>nu nc. lookup_obj h1 (myInternalState st0) =
           Some (fmupd ''numChars'' (JNum nc) (fmupd ''numUsers'' (JNum nu) (start_props data h0)))"
proof (cases "nullish (messageState data)")
  case True
  from constructor_Inr_seed [OF True assms] obtain pu pc where
    "st0 = \<lparr>myInternalState = length h0\<rparr>"
    "lookup_obj h1 (length h0) =
       Some (fmupd ''numChars'' (key_count pc) (fmupd ''numUsers'' (key_count pu) seed))"
    by blast
  with True have "lookup_obj h1 (myInternalState st0) =
      Some (fmupd ''numChars'' (JNum (int (fcard (fmdom pc))))
             (fmupd ''numUsers'' (JNum (int (fcard (fmdom pu)))) (start_props data h0)))"
    by (simp add: start_props_def key_count_def)
  then show ?thesis by blast
next
  case False
  from constructor_Inr_ref [OF False assms] obtain a p0 pu pc where
    "messageState data = JRef a" "lookup_obj h0 a = Some p0"
    "st0 = \<lparr>myInternalState = a\<rparr>"
    "lookup_obj h1 a =
       Some (fmupd ''numChars'' (key_count pc) (fmupd ''numUsers'' (key_count pu) p0))"
    by blast
  then have "lookup_obj h1 (myInternalState st0) =
      Some (fmupd ''numChars'' (JNum (int (fcard (fmdom pc))))
             (fmupd ''numUsers'' (JNum (int (fcard (fmdom pu)))) (start_props data h0)))"
    by (simp add: start_props_def key_count_def)
  then show ?thesis by blast
qed

section \<open>One call, and a sequence of calls\<close>

lemma step_merges:
  assumes "lookup_obj h (myInternalState st) = Some w"
    and "step c (st, h) = Inr (st', h')"
  shows "lookup_obj h' (myInternalState st') = Some (w ++\<^sub>f merged c h)"
proof (cases c)
  case Load
  with assms show ?thesis by (simp add: load_def)
next
  case (SetState s)
  show ?thesis
  proof (cases "nullish s")
    case True
    with assms SetState show ?thesis by (simp add: setState_def spread_def)
  next
    case False
    with assms SetState show ?thesis
      by (auto simp: setState_def spread_def alloc_def lookup_obj_append
               split: sum.splits)
  qed
next
  case (BeforePrompt m)
  with assms show ?thesis
    by (auto simp: beforePrompt_def hook_live alloc_def lookup_obj_append_live)
next
  case (AfterResponse m)
  with assms show ?thesis
    by (auto simp: afterResponse_def hook_live alloc_def lookup_obj_append_live)
qed

lemma run_merges:
  assumes "lookup_obj h (myInternalState st) = Some w"
    and "run cs (st, h) = Inr (st', h')"
  shows "lookup_obj h' (myInternalState st') = Some (foldl (++\<^sub>f) w (merges cs (st, h)))"
  using assms
proof (induction cs arbitrary: st h w)
  case Nil
  then show ?case by simp
next
  case (Cons c cs)
  from Cons.prems(2) obtain st1 h1 where s1: "step c (st, h) = Inr (st1, h1)"
    and r: "run cs (st1, h1) = Inr (st', h')"
    by (auto split: sum.splits)
  from step_merges [OF Cons.prems(1) s1]
  have "lookup_obj h1 (myInternalState st1) = Some (w ++\<^sub>f merged c h)" .
  from Cons.IH [OF this r] s1 show ?case by simp
qed

section \<open>The claims\<close>

text \<open>
  C1. Throughout the life of an instance the working state is a chain of shallow merges:
  after a construction that returned and any sequence of calls that returned, the object
  \<open>myInternalState\<close> points to holds the object the constructor started from (the
  host's \<open>messageState\<close>, or the seed when that is \<open>null\<close>), with the two counters
  \<open>numUsers\<close> and \<open>numChars\<close> written onto it, merged from the left with what each
  call spread into it, the right-hand side winning on each key.
\<close>

theorem working_state_is_merge_chain:
  assumes "constructor data h0 = Inr (st0, h1)"
    and "run cs (st0, h1) = Inr (st, h)"
  shows "\<exists>nu nc. lookup_obj h (myInternalState st) =
           Some (foldl (++\<^sub>f)
                   (fmupd ''numChars'' (JNum nc)
                      (fmupd ''numUsers'' (JNum nu) (start_props data h0)))
                   (merges cs (st0, h1)))"
proof -
  from constructor_base [OF assms(1)] obtain nu nc where
    "lookup_obj h1 (myInternalState st0) =
       Some (fmupd ''numChars'' (JNum nc) (fmupd ''numUsers'' (JNum nu) (start_props data h0)))"
    by blast
  from run_merges [OF this assms(2)] show ?thesis by blast
qed

theorem working_state_is_merge_chain_witness:
  "constructor (demo_data JNull) demo_heap =
     Inr (\<lparr>myInternalState = 3\<rparr>, demo_heap @ [plain demo_working]) \<and>
   run [Load, SetState (JRef 2), BeforePrompt demo_message, SetState JNull]
       (\<lparr>myInternalState = 3\<rparr>, demo_heap @ [plain demo_working]) =
     Inr (\<lparr>myInternalState = 4\<rparr>,
          demo_heap @ [plain demo_working, plain (demo_working ++\<^sub>f demo_state),
                       plain (fmupd ''someKey'' (JStr ''x'') fmempty)]) \<and>
   (\<exists>nu nc. lookup_obj
      (demo_heap @ [plain demo_working, plain (demo_working ++\<^sub>f demo_state),
                    plain (fmupd ''someKey'' (JStr ''x'') fmempty)]) 
      (myInternalState \<lparr>myInternalState = 4\<rparr>) =
      Some (foldl (++\<^sub>f)
              (fmupd ''numChars'' (JNum nc)
                 (fmupd ''numUsers'' (JNum nu) (start_props (demo_data JNull) demo_heap)))
              (merges [Load, SetState (JRef 2), BeforePrompt demo_message, SetState JNull]
                 (\<lparr>myInternalState = 3\<rparr>, demo_heap @ [plain demo_working]))))"
proof -
  have c: "constructor (demo_data JNull) demo_heap =
             Inr (\<lparr>myInternalState = 3\<rparr>, demo_heap @ [plain demo_working])"
    by (simp add: constructor_def demo_data_def demo_heap_def obj_props_plain demo_users_def
          demo_characters_def demo_working_def initial_working_def alloc_def keys_length_def
          key_count_def lookup_obj_def seed_def fcard_written_out writable_plain put_plain)
  have r: "run [Load, SetState (JRef 2), BeforePrompt demo_message, SetState JNull]
             (\<lparr>myInternalState = 3\<rparr>, demo_heap @ [plain demo_working]) =
           Inr (\<lparr>myInternalState = 4\<rparr>,
                demo_heap @ [plain demo_working, plain (demo_working ++\<^sub>f demo_state),
                             plain (fmupd ''someKey'' (JStr ''x'') fmempty)])"
    by (simp add: load_def setState_def beforePrompt_def get_prop_def spread_def alloc_def
          lookup_obj_def demo_heap_def obj_props_plain demo_users_def demo_characters_def demo_state_def demo_working_def)
  from c r working_state_is_merge_chain [OF c r] show ?thesis by (intro conjI)
qed

text \<open>
  C2. \<open>setState\<close> with a state that is not \<open>null\<close> leaves the working state equal to
  the shallow merge of the previous working state with that state: a key of the state
  takes the state's value, any other key keeps the value it had. With \<open>null\<close> (or
  \<open>undefined\<close>) the instance and the store stay as they are.
\<close>

theorem setState_merges:
  "(\<not> nullish s \<longrightarrow> lookup_obj h (myInternalState st) = Some w \<longrightarrow> own_props h s = Inr p \<longrightarrow>
      (\<exists>st' h'. setState st h s = Inr (st', h') \<and>
                lookup_obj h' (myInternalState st') = Some (w ++\<^sub>f p))) \<and>
   (\<forall>k. fmlookup (w ++\<^sub>f p) k =
          (case fmlookup p k of Some v \<Rightarrow> Some v | None \<Rightarrow> fmlookup w k)) \<and>
   (nullish s \<longrightarrow> setState st h s = Inr (st, h))"
proof (intro conjI impI allI)
  assume "\<not> nullish s" "lookup_obj h (myInternalState st) = Some w" "own_props h s = Inr p"
  then have "setState st h s = Inr (st\<lparr>myInternalState := length h\<rparr>, h @ [plain (w ++\<^sub>f p)])"
    by (rule setState_live)
  moreover have "lookup_obj (h @ [plain (w ++\<^sub>f p)])
                   (myInternalState (st\<lparr>myInternalState := length h\<rparr>)) = Some (w ++\<^sub>f p)"
    by (simp add: lookup_obj_append)
  ultimately show "\<exists>st' h'. setState st h s = Inr (st', h') \<and>
                     lookup_obj h' (myInternalState st') = Some (w ++\<^sub>f p)"
    by blast
next
  fix k
  show "fmlookup (w ++\<^sub>f p) k =
          (case fmlookup p k of Some v \<Rightarrow> Some v | None \<Rightarrow> fmlookup w k)"
    by (auto simp: fmdom_notI split: option.splits)
next
  assume "nullish s"
  then show "setState st h s = Inr (st, h)" by (simp add: setState_def)
qed

theorem setState_merges_witness:
  "\<not> nullish (JRef 2) \<and>
   lookup_obj (demo_heap @ [plain demo_working]) (myInternalState \<lparr>myInternalState = 3\<rparr>) =
     Some demo_working \<and>
   own_props (demo_heap @ [plain demo_working]) (JRef 2) = Inr demo_state \<and>
   (\<exists>st' h'. setState \<lparr>myInternalState = 3\<rparr> (demo_heap @ [plain demo_working]) (JRef 2) =
                Inr (st', h') \<and>
              lookup_obj h' (myInternalState st') = Some (demo_working ++\<^sub>f demo_state)) \<and>
   fmlookup (demo_working ++\<^sub>f demo_state) ''someKey'' = Some (JStr ''x'') \<and>
   fmlookup (demo_working ++\<^sub>f demo_state) ''numUsers'' = Some (JNum 2) \<and>
   nullish JNull \<and>
   setState \<lparr>myInternalState = 3\<rparr> (demo_heap @ [plain demo_working]) JNull =
     Inr (\<lparr>myInternalState = 3\<rparr>, demo_heap @ [plain demo_working])"
proof -
  have w: "lookup_obj (demo_heap @ [plain demo_working]) (myInternalState \<lparr>myInternalState = 3\<rparr>) =
             Some demo_working"
    by (simp add: lookup_obj_def demo_heap_def obj_props_plain demo_users_def demo_characters_def demo_state_def)
  have p: "own_props (demo_heap @ [plain demo_working]) (JRef 2) = Inr demo_state"
    by (simp add: lookup_obj_def demo_heap_def obj_props_plain demo_users_def demo_characters_def demo_state_def)
  have k1: "fmlookup demo_state ''someKey'' = Some (JStr ''x'')"
    by (simp add: demo_heap_def obj_props_plain demo_users_def demo_characters_def demo_state_def)
  have k2: "fmlookup demo_state ''numUsers'' = None"
    by (simp add: demo_heap_def obj_props_plain demo_users_def demo_characters_def demo_state_def)
  have k3: "fmlookup demo_working ''numUsers'' = Some (JNum 2)"
    by (simp add: demo_working_def)
  from w p k1 k2 k3
    setState_merges [of "JRef 2" "demo_heap @ [plain demo_working]" "\<lparr>myInternalState = 3\<rparr>"
                        demo_working demo_state]
    setState_merges [of JNull "demo_heap @ [plain demo_working]" "\<lparr>myInternalState = 3\<rparr>"
                        demo_working demo_state]
  show ?thesis by simp
qed

text \<open>
  C3. Two successive \<open>setState\<close> calls with states \<open>s1\<close> and \<open>s2\<close>, neither
  \<open>null\<close>, both return, and the working state they leave, restricted to the keys of
  \<open>s1\<close> and \<open>s2\<close>, is the single merge \<open>{...s1, ...s2}\<close>: merging is associative, and
  on each key the last write wins.
\<close>

theorem setState_twice:
  assumes "lookup_obj h (myInternalState st) = Some w"
    and "\<not> nullish s1" and "\<not> nullish s2"
    and "own_props h s1 = Inr p1" and "own_props h s2 = Inr p2"
  shows "\<exists>st1 h1 st2 h2.
           setState st h s1 = Inr (st1, h1) \<and> setState st1 h1 s2 = Inr (st2, h2) \<and>
           lookup_obj h2 (myInternalState st2) = Some (w ++\<^sub>f (p1 ++\<^sub>f p2)) \<and>
           fmrestrict_fset (fmdom p1 |\<union>| fmdom p2) (w ++\<^sub>f (p1 ++\<^sub>f p2)) = p1 ++\<^sub>f p2 \<and>
           (w ++\<^sub>f p1) ++\<^sub>f p2 = w ++\<^sub>f (p1 ++\<^sub>f p2) \<and>
           (\<forall>k. fmlookup (p1 ++\<^sub>f p2) k =
                  (case fmlookup p2 k of Some v \<Rightarrow> Some v | None \<Rightarrow> fmlookup p1 k))"
proof -
  let ?st1 = "st\<lparr>myInternalState := length h\<rparr>" and ?h1 = "h @ [plain (w ++\<^sub>f p1)]"
  let ?st2 = "?st1\<lparr>myInternalState := length ?h1\<rparr>" and ?h2 = "?h1 @ [plain ((w ++\<^sub>f p1) ++\<^sub>f p2)]"
  have first: "setState st h s1 = Inr (?st1, ?h1)"
    using assms(2,1,4) by (rule setState_live)
  have w1: "lookup_obj ?h1 (myInternalState ?st1) = Some (w ++\<^sub>f p1)"
    by (simp add: lookup_obj_append)
  have p2: "own_props ?h1 s2 = Inr p2"
    using assms(5) by (rule own_props_append)
  have second: "setState ?st1 ?h1 s2 = Inr (?st2, ?h2)"
    using assms(3) w1 p2 by (rule setState_live)
  have w2: "lookup_obj ?h2 (myInternalState ?st2) = Some (w ++\<^sub>f (p1 ++\<^sub>f p2))"
    by (simp add: lookup_obj_def obj_props_plain nth_append)
  have restr: "fmrestrict_fset (fmdom p1 |\<union>| fmdom p2) (w ++\<^sub>f (p1 ++\<^sub>f p2)) = p1 ++\<^sub>f p2"
    by (rule fmap_ext) (auto simp: fmdom_notI)
  have keys: "\<forall>k. fmlookup (p1 ++\<^sub>f p2) k =
                  (case fmlookup p2 k of Some v \<Rightarrow> Some v | None \<Rightarrow> fmlookup p1 k)"
    by (auto simp: fmdom_notI split: option.splits)
  have assoc: "(w ++\<^sub>f p1) ++\<^sub>f p2 = w ++\<^sub>f (p1 ++\<^sub>f p2)"
    by simp
  from first second w2 restr assoc keys show ?thesis by blast
qed

theorem setState_twice_witness:
  "lookup_obj (demo_heap @ [plain demo_working]) (myInternalState \<lparr>myInternalState = 3\<rparr>) =
     Some demo_working \<and>
   \<not> nullish (JRef 2) \<and> \<not> nullish (JStr ''ab'') \<and>
   own_props (demo_heap @ [plain demo_working]) (JRef 2) = Inr demo_state \<and>
   own_props (demo_heap @ [plain demo_working]) (JStr ''ab'') = Inr (index_props ''ab'') \<and>
   (\<exists>st1 h1 st2 h2.
      setState \<lparr>myInternalState = 3\<rparr> (demo_heap @ [plain demo_working]) (JRef 2) = Inr (st1, h1) \<and>
      setState st1 h1 (JStr ''ab'') = Inr (st2, h2) \<and>
      lookup_obj h2 (myInternalState st2) =
        Some (demo_working ++\<^sub>f (demo_state ++\<^sub>f index_props ''ab'')) \<and>
      fmrestrict_fset (fmdom demo_state |\<union>| fmdom (index_props ''ab''))
        (demo_working ++\<^sub>f (demo_state ++\<^sub>f index_props ''ab'')) =
        demo_state ++\<^sub>f index_props ''ab'')"
proof -
  have w: "lookup_obj (demo_heap @ [plain demo_working]) (myInternalState \<lparr>myInternalState = 3\<rparr>) =
             Some demo_working"
    by (simp add: lookup_obj_def demo_heap_def obj_props_plain demo_users_def demo_characters_def demo_state_def)
  have n1: "\<not> nullish (JRef 2)" and n2: "\<not> nullish (JStr ''ab'')"
    by simp_all
  have p1: "own_props (demo_heap @ [plain demo_working]) (JRef 2) = Inr demo_state"
    by (simp add: lookup_obj_def demo_heap_def obj_props_plain demo_users_def demo_characters_def demo_state_def)
  have p2: "own_props (demo_heap @ [plain demo_working]) (JStr ''ab'') = Inr (index_props ''ab'')"
    by simp
  from setState_twice [OF w n1 n2 p1 p2] w n1 n2 p1 p2 show ?thesis by blast
qed

text \<open>
  C4. \<open>setState(null)\<close> does nothing: the instance holds the same reference afterwards
  and the store, so the contents of that object, is the same. So does
  \<open>setState(undefined)\<close>.
\<close>

theorem setState_null_noop:
  "setState st h JNull = Inr (st, h) \<and> setState st h JUndefined = Inr (st, h)"
  by (simp add: setState_def)

text \<open>
  C5. Constructed with \<open>messageState\<close> \<open>null\<close> (or absent) and with the users and
  the characters supplied, the working state has exactly the three keys \<open>someKey\<close>,
  \<open>numUsers\<close> and \<open>numChars\<close>: the seed value \<open>'someValue'\<close>, the number of keys
  of \<open>users\<close> and the number of keys of \<open>characters\<close>.
\<close>

theorem constructor_from_null:
  assumes "nullish (messageState data)"
    and "own_props h (users data) = Inr pu"
    and "own_props h (characters data) = Inr pc"
  shows "\<exists>st h'. constructor data h = Inr (st, h') \<and>
           lookup_obj h' (myInternalState st) =
             Some (fmupd ''numChars'' (JNum (int (fcard (fmdom pc))))
                    (fmupd ''numUsers'' (JNum (int (fcard (fmdom pu))))
                      (fmupd ''someKey'' (JStr ''someValue'') fmempty))) \<and>
           (\<exists>w. lookup_obj h' (myInternalState st) = Some w \<and>
                fmdom w = {|''someKey'', ''numUsers'', ''numChars''|})"
proof -
  have pu: "own_props (h @ [plain seed]) (users data) = Inr pu"
    using assms(2) by (rule own_props_append)
  have pc: "own_props (h @ [plain (fmupd ''numUsers'' (key_count pu) seed)])
              (characters data) = Inr pc"
    using assms(3) by (rule own_props_append)
  from constructor_seed [OF assms(1) pu pc] show ?thesis
    by (auto simp: lookup_obj_append key_count_def seed_def)
qed

theorem constructor_from_null_witness:
  "nullish (messageState (demo_data JNull)) \<and>
   own_props demo_heap (users (demo_data JNull)) = Inr demo_users \<and>
   own_props demo_heap (characters (demo_data JNull)) = Inr demo_characters \<and>
   fcard (fmdom demo_users) = 2 \<and> fcard (fmdom demo_characters) = 1 \<and>
   (\<exists>st h'. constructor (demo_data JNull) demo_heap = Inr (st, h') \<and>
      lookup_obj h' (myInternalState st) =
        Some (fmupd ''numChars'' (JNum (int (fcard (fmdom demo_characters))))
               (fmupd ''numUsers'' (JNum (int (fcard (fmdom demo_users))))
                 (fmupd ''someKey'' (JStr ''someValue'') fmempty))))"
proof -
  have n: "nullish (messageState (demo_data JNull))"
    by (simp add: demo_data_def)
  have pu: "own_props demo_heap (users (demo_data JNull)) = Inr demo_users"
    by (simp add: demo_data_def demo_heap_def obj_props_plain demo_users_def demo_characters_def demo_state_def lookup_obj_def)
  have pc: "own_props demo_heap (characters (demo_data JNull)) = Inr demo_characters"
    by (simp add: demo_data_def demo_heap_def obj_props_plain demo_users_def demo_characters_def demo_state_def lookup_obj_def)
  have cu: "fcard (fmdom demo_users) = 2" and cc: "fcard (fmdom demo_characters) = 1"
    by (simp_all add: demo_heap_def obj_props_plain demo_users_def demo_characters_def demo_state_def fcard_written_out)
  from constructor_from_null [OF n pu pc] n pu pc cu cc show ?thesis by blast
qed

text \<open>
  C6. Whatever the message, with any of its fields absent, \<open>beforePrompt\<close> and
  \<open>afterResponse\<close> return: \<open>stageDirections\<close>, \<open>modifiedMessage\<close>,
  \<open>systemMessage\<close>, \<open>error\<close> and \<open>chatState\<close> are \<open>null\<close>, and \<open>messageState\<close>
  is a new object with the single key \<open>someKey\<close>, holding the value the working state
  has under \<open>someKey\<close> (\<open>undefined\<close> when it has none) and no other key of it.
\<close>

theorem hooks_echo_someKey:
  assumes "lookup_obj h (myInternalState st) = Some w"
  shows "\<exists>a h' b h''.
           beforePrompt st h m =
             Inr (\<lparr>sr_stageDirections = JNull, sr_messageState = JRef a,
                   sr_modifiedMessage = JNull, sr_systemMessage = JNull,
                   sr_error = JNull, sr_chatState = JNull\<rparr>, st, h') \<and>
           lookup_obj h' a =
             Some (fmupd ''someKey''
                     (case fmlookup w ''someKey'' of None \<Rightarrow> JUndefined | Some v \<Rightarrow> v) fmempty) \<and>
           afterResponse st h m =
             Inr (\<lparr>sr_stageDirections = JNull, sr_messageState = JRef b,
                   sr_modifiedMessage = JNull, sr_systemMessage = JNull,
                   sr_error = JNull, sr_chatState = JNull\<rparr>, st, h'') \<and>
           lookup_obj h'' b =
             Some (fmupd ''someKey''
                     (case fmlookup w ''someKey'' of None \<Rightarrow> JUndefined | Some v \<Rightarrow> v) fmempty)"
  using assms
  by (simp add: beforePrompt_def afterResponse_def hook_live alloc_def lookup_obj_append)

theorem hooks_echo_someKey_witness:
  "lookup_obj demo_heap (myInternalState \<lparr>myInternalState = 2\<rparr>) = Some demo_state \<and>
   fmlookup demo_state ''someKey'' = Some (JStr ''x'') \<and>
   (\<exists>a h' b h''.
      beforePrompt \<lparr>myInternalState = 2\<rparr> demo_heap
          \<lparr>content = None, anonymizedId = None, isBot = None\<rparr> =
        Inr (\<lparr>sr_stageDirections = JNull, sr_messageState = JRef a,
              sr_modifiedMessage = JNull, sr_systemMessage = JNull,
              sr_error = JNull, sr_chatState = JNull\<rparr>, \<lparr>myInternalState = 2\<rparr>, h') \<and>
      lookup_obj h' a =
        Some (fmupd ''someKey''
                (case fmlookup demo_state ''someKey'' of
                   None \<Rightarrow> JUndefined | Some v \<Rightarrow> v) fmempty) \<and>
      afterResponse \<lparr>myInternalState = 2\<rparr> demo_heap
          \<lparr>content = None, anonymizedId = None, isBot = None\<rparr> =
        Inr (\<lparr>sr_stageDirections = JNull, sr_messageState = JRef b,
              sr_modifiedMessage = JNull, sr_systemMessage = JNull,
              sr_error = JNull, sr_chatState = JNull\<rparr>, \<lparr>myInternalState = 2\<rparr>, h'') \<and>
      lookup_obj h'' b =
        Some (fmupd ''someKey''
                (case fmlookup demo_state ''someKey'' of
                   None \<Rightarrow> JUndefined | Some v \<Rightarrow> v) fmempty))"
proof -
  have w: "lookup_obj demo_heap (myInternalState \<lparr>myInternalState = 2\<rparr>) = Some demo_state"
    by (simp add: lookup_obj_def demo_heap_def obj_props_plain demo_users_def demo_characters_def demo_state_def)
  have k: "fmlookup demo_state ''someKey'' = Some (JStr ''x'')"
    by (simp add: demo_heap_def obj_props_plain demo_users_def demo_characters_def demo_state_def)
  from hooks_echo_someKey [OF w, of "\<lparr>content = None, anonymizedId = None, isBot = None\<rparr>"] w k
  show ?thesis by (intro conjI)
qed

text \<open>
  C7. \<open>load\<close> resolves, whatever the instance was constructed from, with \<open>success\<close>
  \<open>true\<close> and \<open>error\<close>, \<open>initState\<close> and \<open>chatState\<close> \<open>null\<close>, and changes
  nothing.
\<close>

theorem load_succeeds:
  "load st h =
     Inr (\<lparr>lr_success = JBool True, lr_error = JNull,
           lr_initState = JNull, lr_chatState = JNull\<rparr>, st, h)"
  by (simp add: load_def)







text \<open>
  C10. \<open>beforePrompt\<close> and \<open>afterResponse\<close> leave the working state as it is,
  whatever the message: the instance holds the same reference, the object it points to
  has the same keys and values, and so has every other object of the store (the hooks
  only allocate the object they return).
\<close>

theorem hooks_keep_working_state:
  assumes "lookup_obj h (myInternalState st) = Some w"
  shows "\<exists>r h' r' h''.
           beforePrompt st h m = Inr (r, st, h') \<and>
           lookup_obj h' (myInternalState st) = Some w \<and>
           (\<forall>b. b < length h \<longrightarrow> lookup_obj h' b = lookup_obj h b) \<and>
           afterResponse st h m = Inr (r', st, h'') \<and>
           lookup_obj h'' (myInternalState st) = Some w \<and>
           (\<forall>b. b < length h \<longrightarrow> lookup_obj h'' b = lookup_obj h b)"
proof -
  from assms have live: "myInternalState st < length h"
    by (rule lookup_obj_Some_live)
  with assms show ?thesis
    by (simp add: beforePrompt_def afterResponse_def hook_live alloc_def lookup_obj_append)
qed

theorem hooks_keep_working_state_witness:
  "lookup_obj (demo_heap @ [plain demo_working]) (myInternalState \<lparr>myInternalState = 3\<rparr>) =
     Some demo_working \<and>
   (\<exists>r h' r' h''.
      beforePrompt \<lparr>myInternalState = 3\<rparr> (demo_heap @ [plain demo_working]) demo_message =
        Inr (r, \<lparr>myInternalState = 3\<rparr>, h') \<and>
      lookup_obj h' (myInternalState \<lparr>myInternalState = 3\<rparr>) = Some demo_working \<and>
      afterResponse \<lparr>myInternalState = 3\<rparr> (demo_heap @ [plain demo_working]) demo_message =
        Inr (r', \<lparr>myInternalState = 3\<rparr>, h'') \<and>
      lookup_obj h'' (myInternalState \<lparr>myInternalState = 3\<rparr>) = Some demo_working)"
proof -
  have w: "lookup_obj (demo_heap @ [plain demo_working]) (myInternalState \<lparr>myInternalState = 3\<rparr>) =
             Some demo_working"
    by (simp add: lookup_obj_def demo_heap_def obj_props_plain demo_users_def demo_characters_def demo_state_def)
  from hooks_keep_working_state [OF w, of demo_message] w show ?thesis by blast
qed

end
